theory Spec2Isabelle
  imports Complex_Main "HOL-Library.Sublist" "HOL-Library.Signed_Division"
begin

section \<open>Data model\<close>

text \<open>
  The TRX forwarder of \<^verbatim>\<open>src/forwarder.js\<close> and the chain client of
  \<^verbatim>\<open>src/tronService.js\<close>. Amounts are JavaScript numbers holding TRX; the model
  takes them as reals, so the comparisons and the subtraction of the source are the exact
  ones (rounding, NaN and the infinities of IEEE doubles stay outside the model).
  Balances reported by the node are integers in SUN.
\<close>

text \<open>A thrown JavaScript value; \<open>message\<close> is \<open>None\<close> where \<^verbatim>\<open>error.message\<close> is undefined.\<close>

datatype jserror = JsError (message: "string option")

text \<open>The configuration object built by \<^verbatim>\<open>loadConfig\<close>.\<close>

record config =
  privateKey :: "string option"
  watchAddress :: "string option"
  destinationAddress :: "string option"
  minAmount :: real
  reserveAmount :: real
  checkInterval :: int
  tronApiKey :: "string option"

text \<open>\<^verbatim>\<open>this.stats\<close> of the forwarder.\<close>

record session_stats =
  transfersCount :: nat
  totalAmount :: real
  startTime :: int

text \<open>
  Everything observable that the code does besides updating its fields: the calls into the
  chain client and the lines handed to the logger, one constructor for each group of
  logger calls of the source (the wording of the messages is left out, their data is kept).
\<close>

datatype event =
    GetBalanceCall "string option"
  | GetBalanceFailed "string option" jserror
  | SendTrxCall "string option" real
  | BuildTransaction "string option" real
  | SendTrxOk "string option"
  | SendTrxFailed "string option" jserror
  | Starting string
  | InitialBalance real
  | MonitoringStarted int
  | StartFailed jserror
  | MonitoringStopped
  | StatsDisplayed int int int nat real
  | CheckSkipped
  | IncomingDetected real real
  | BalanceDecreased real real
  | CheckFailed jserror
  | BelowMinAmount real real
  | NothingLeftAfterReserve real
  | ForwardPrepared real real real "string option"
  | ForwardSucceeded
  | ForwardFailed jserror
  | FeeHint
  | RemainingBalance real
  | ResyncFailed jserror

text \<open>
  The fields of a \<^verbatim>\<open>TrxForwarder\<close> object, followed by the part of the runtime it acts
  on: the armed \<^verbatim>\<open>setInterval\<close> handles, the number of pending \<^verbatim>\<open>setTimeout\<close> callbacks
  (all of them the balance resync of \<^verbatim>\<open>forwardTRX\<close>), the clock read by \<^verbatim>\<open>Date.now()\<close>,
  and the events emitted so far. A timer handle is an object in Node, hence always truthy:
  \<open>checkIntervalId\<close> is \<open>None\<close> for \<^verbatim>\<open>null\<close> and \<open>Some\<close> of the handle otherwise.
\<close>

record forwarder =
  lastBalance :: real
  isProcessing :: bool
  checkIntervalId :: "nat option"
  stats :: session_stats
  intervals :: "nat list"
  timeouts :: nat
  clock :: int
  trace :: "event list"

definition emit :: "event \<Rightarrow> forwarder \<Rightarrow> forwarder" where
  "emit e w = w\<lparr>trace := trace w @ [e]\<rparr>"

text \<open>The constructor of \<^verbatim>\<open>TrxForwarder\<close>, run at time \<open>now\<close>.\<close>

definition new_forwarder :: "int \<Rightarrow> forwarder" where
  "new_forwarder now =
     \<lparr>lastBalance = 0, isProcessing = False, checkIntervalId = None,
      stats = \<lparr>transfersCount = 0, totalAmount = 0, startTime = now\<rparr>,
      intervals = [], timeouts = 0, clock = now, trace = []\<rparr>"

text \<open>
  An \<^verbatim>\<open>async\<close> function runs until its next \<^verbatim>\<open>await\<close> of a network call and is resumed
  with the reply. Each such function is therefore given in pieces, one for each stretch of
  code that runs without suspension: a piece ends either \<open>Done\<close> with the function's
  completion (\<open>Inl\<close> a thrown error, \<open>Inr\<close> a normal return) or \<open>Await\<close> at a network call,
  carrying the local variables the rest of the function needs.
\<close>

datatype 'a suspension = Done "jserror + unit" | Await 'a

section \<open>The chain client (tronService.js)\<close>

definition fromSun :: "int \<Rightarrow> real" where
  "fromSun sun = real_of_int sun / 1000000"

definition toSun :: "real \<Rightarrow> real" where
  "toSun trx = trx * 1000000"

text \<open>
  \<^verbatim>\<open>getBalance(address)\<close>: the request to the node, and the rest of the function run on
  the node's reply (\<open>Inl\<close> where the awaited call rejects).
\<close>

definition getBalance_call :: "string option \<Rightarrow> forwarder \<Rightarrow> forwarder" where
  "getBalance_call address w = emit (GetBalanceCall address) w"

definition getBalance_return ::
  "string option \<Rightarrow> jserror + int \<Rightarrow> forwarder \<Rightarrow> (jserror + real) \<times> forwarder" where
  "getBalance_return address reply w =
     (case reply of
        Inl error \<Rightarrow> (Inl error, emit (GetBalanceFailed address error) w)
      | Inr balanceSun \<Rightarrow> (Inr (fromSun balanceSun), w))"

definition getBalance ::
  "string option \<Rightarrow> jserror + int \<Rightarrow> forwarder \<Rightarrow> (jserror + real) \<times> forwarder" where
  "getBalance address reply w = getBalance_return address reply (getBalance_call address w)"

text \<open>
  The replies of TronWeb to the three awaited calls of \<^verbatim>\<open>sendTrx\<close>: building the
  transaction, signing it, broadcasting it. The broadcast reply is the object whose
  \<^verbatim>\<open>result\<close>, \<^verbatim>\<open>txid\<close>, \<^verbatim>\<open>transaction\<close> and \<^verbatim>\<open>message\<close> the code reads; a field that
  is missing is \<open>None\<close>. The three calls are awaited one after the other, and a reply
  is read only if the calls before it succeeded; since \<^verbatim>\<open>sendTrx\<close> touches nothing of
  the forwarder but the log, it is resumed with the three replies at once.
\<close>

datatype transaction = Transaction (txID: "string option")

datatype broadcast =
  Broadcast (result: bool) (raw_txid: "string option")
    (raw_transaction: "transaction option") (raw_message: "string option")

record tronweb_replies =
  build_reply :: "jserror + transaction"
  sign_reply :: "jserror + transaction"
  broadcast_reply :: "jserror + broadcast"

text \<open>The object returned by \<^verbatim>\<open>sendTrx\<close>.\<close>

record send_result =
  success :: bool
  txid :: "string option"
  amount :: real
  toAddress :: "string option"

text \<open>\<^verbatim>\<open>a || b\<close> on optional strings: the empty string is falsy, as undefined is.\<close>

definition js_or :: "string option \<Rightarrow> string option \<Rightarrow> string option" where
  "js_or a b = (case a of Some (c # cs) \<Rightarrow> a | _ \<Rightarrow> b)"

text \<open>The fallback message of \<^verbatim>\<open>sendTrx\<close> (Russian in the source; rendered in English).\<close>

definition unknown_send_error :: string where
  "unknown_send_error = ''Unknown error while sending the transaction''"

definition sendTrx_call :: "string option \<Rightarrow> real \<Rightarrow> forwarder \<Rightarrow> forwarder" where
  "sendTrx_call toAddress' amount' w =
     emit (BuildTransaction toAddress' (toSun amount')) (emit (SendTrxCall toAddress' amount') w)"

text \<open>The \<^verbatim>\<open>catch\<close> block of \<^verbatim>\<open>sendTrx\<close>: log and rethrow.\<close>

definition sendTrx_catch ::
  "string option \<Rightarrow> jserror \<Rightarrow> forwarder \<Rightarrow> (jserror + send_result) \<times> forwarder" where
  "sendTrx_catch toAddress' error w = (Inl error, emit (SendTrxFailed toAddress' error) w)"

definition sendTrx_return ::
  "string option \<Rightarrow> real \<Rightarrow> tronweb_replies \<Rightarrow> forwarder \<Rightarrow> (jserror + send_result) \<times> forwarder" where
  "sendTrx_return toAddress' amount' tw w =
     (case build_reply tw of
        Inl error \<Rightarrow> sendTrx_catch toAddress' error w
      | Inr transaction \<Rightarrow>
          (case sign_reply tw of
             Inl error \<Rightarrow> sendTrx_catch toAddress' error w
           | Inr signedTransaction \<Rightarrow>
               (case broadcast_reply tw of
                  Inl error \<Rightarrow> sendTrx_catch toAddress' error w
                | Inr res \<Rightarrow>
                    if result res then
                      (let txid' = js_or (raw_txid res)
                                    (case raw_transaction res of None \<Rightarrow> None | Some t \<Rightarrow> txID t)
                       in (Inr \<lparr>success = True, txid = txid', amount = amount', toAddress = toAddress'\<rparr>,
                           emit (SendTrxOk txid') w))
                    else
                      sendTrx_catch toAddress'
                        (JsError (js_or (raw_message res) (Some unknown_send_error))) w)))"

definition sendTrx ::
  "string option \<Rightarrow> real \<Rightarrow> tronweb_replies \<Rightarrow> forwarder \<Rightarrow> (jserror + send_result) \<times> forwarder" where
  "sendTrx toAddress' amount' tw w = sendTrx_return toAddress' amount' tw (sendTrx_call toAddress' amount' w)"

section \<open>The forwarder (forwarder.js)\<close>

text \<open>\<^verbatim>\<open>String.prototype.includes\<close>.\<close>

primrec str_includes :: "string \<Rightarrow> string \<Rightarrow> bool" where
  "str_includes [] sub = (sub = [])"
| "str_includes (c # cs) sub = (prefix sub (c # cs) \<or> str_includes cs sub)"

subsection \<open>forwardTRX\<close>

text \<open>The \<^verbatim>\<open>finally\<close> block of \<^verbatim>\<open>forwardTRX\<close>.\<close>

definition forwardTRX_finally :: "forwarder \<Rightarrow> forwarder" where
  "forwardTRX_finally w = w\<lparr>isProcessing := False\<rparr>"

text \<open>The first statement of \<^verbatim>\<open>forwardTRX\<close>, before the \<^verbatim>\<open>try\<close>.\<close>

definition forwardTRX_begin :: "forwarder \<Rightarrow> forwarder" where
  "forwardTRX_begin w = w\<lparr>isProcessing := True\<rparr>"

text \<open>
  From the entry of \<^verbatim>\<open>forwardTRX(balance)\<close> to its first suspension, inside
  \<^verbatim>\<open>tronService.sendTrx\<close>; \<open>Await amountToSend\<close> there.
\<close>

definition forwardTRX_call :: "config \<Rightarrow> real \<Rightarrow> forwarder \<Rightarrow> real suspension \<times> forwarder" where
  "forwardTRX_call cfg balance w =
     (let w1 = forwardTRX_begin w in
      if balance < minAmount cfg then
        (Done (Inr ()), forwardTRX_finally (emit (BelowMinAmount balance (minAmount cfg)) w1))
      else
        (let amountToSend = balance - reserveAmount cfg in
         if amountToSend \<le> 0 then
           (Done (Inr ()), forwardTRX_finally (emit (NothingLeftAfterReserve (reserveAmount cfg)) w1))
         else
           (Await amountToSend,
            sendTrx_call (destinationAddress cfg) amountToSend
              (emit (ForwardPrepared balance (reserveAmount cfg) amountToSend
                       (destinationAddress cfg)) w1))))"

text \<open>\<^verbatim>\<open>setTimeout(..., 5000)\<close> with the resync callback.\<close>

definition setTimeout_resync :: "forwarder \<Rightarrow> forwarder" where
  "setTimeout_resync w = w\<lparr>timeouts := Suc (timeouts w)\<rparr>"

text \<open>
  The rest of \<^verbatim>\<open>forwardTRX\<close>, run on the completion of \<^verbatim>\<open>sendTrx\<close>: the success
  branch, the \<^verbatim>\<open>catch\<close> block, then the \<^verbatim>\<open>finally\<close> block.
\<close>

definition forwardTRX_return ::
  "config \<Rightarrow> real \<Rightarrow> jserror + send_result \<Rightarrow> forwarder \<Rightarrow> (jserror + unit) \<times> forwarder" where
  "forwardTRX_return cfg amountToSend reply w =
     (Inr (),
      forwardTRX_finally
        (case reply of
           Inr res \<Rightarrow>
             if success res then
               setTimeout_resync
                 (emit ForwardSucceeded
                    (w\<lparr>stats := (stats w)\<lparr>transfersCount := transfersCount (stats w) + 1,
                                          totalAmount := totalAmount (stats w) + amountToSend\<rparr>\<rparr>))
             else w
         | Inl error \<Rightarrow>
             (let w1 = emit (ForwardFailed error) w in
              if (case message error of None \<Rightarrow> False
                  | Some m \<Rightarrow> str_includes m ''balance is not sufficient'')
              then emit FeeHint w1 else w1)))"

text \<open>\<^verbatim>\<open>forwardTRX(balance)\<close> run to completion, nothing else running in between.\<close>

definition forwardTRX ::
  "config \<Rightarrow> real \<Rightarrow> tronweb_replies \<Rightarrow> forwarder \<Rightarrow> (jserror + unit) \<times> forwarder" where
  "forwardTRX cfg balance tw w =
     (case forwardTRX_call cfg balance w of
        (Done r, w1) \<Rightarrow> (r, w1)
      | (Await amountToSend, w1) \<Rightarrow>
          (case sendTrx_return (destinationAddress cfg) amountToSend tw w1 of
             (reply, w2) \<Rightarrow> forwardTRX_return cfg amountToSend reply w2))"

text \<open>The transfers handed to the chain client so far: recipient and amount, in order.\<close>

fun submission :: "event \<Rightarrow> (string option \<times> real) list" where
  "submission (SendTrxCall to a) = [(to, a)]"
| "submission _ = []"

definition submissions :: "forwarder \<Rightarrow> (string option \<times> real) list" where
  "submissions w = concat (map submission (trace w))"

subsection \<open>checkBalance\<close>

text \<open>From the entry of \<^verbatim>\<open>checkBalance()\<close> to the request for the balance.\<close>

definition checkBalance_call :: "config \<Rightarrow> forwarder \<Rightarrow> unit suspension \<times> forwarder" where
  "checkBalance_call cfg w =
     (if isProcessing w then (Done (Inr ()), emit CheckSkipped w)
      else (Await (), getBalance_call (watchAddress cfg) w))"

text \<open>The \<^verbatim>\<open>catch\<close> block of \<^verbatim>\<open>checkBalance\<close>: log, and return normally.\<close>

definition checkBalance_catch :: "jserror \<Rightarrow> forwarder \<Rightarrow> (jserror + unit) \<times> forwarder" where
  "checkBalance_catch error w = (Inr (), emit (CheckFailed error) w)"

text \<open>
  What \<^verbatim>\<open>checkBalance\<close> does with the completion of \<^verbatim>\<open>await this.forwardTRX(...)\<close>,
  its last statement inside the \<^verbatim>\<open>try\<close>.
\<close>

definition checkBalance_after_forward ::
  "(jserror + unit) \<times> forwarder \<Rightarrow> (jserror + unit) \<times> forwarder" where
  "checkBalance_after_forward rw =
     (case rw of (Inl error, w) \<Rightarrow> checkBalance_catch error w | (Inr u, w) \<Rightarrow> (Inr (), w))"

text \<open>
  \<^verbatim>\<open>checkBalance\<close> resumed with the node's reply to the balance request, up to its return
  or to the suspension of \<^verbatim>\<open>forwardTRX\<close> inside \<^verbatim>\<open>sendTrx\<close>.
\<close>

definition checkBalance_resume ::
  "config \<Rightarrow> jserror + int \<Rightarrow> forwarder \<Rightarrow> real suspension \<times> forwarder" where
  "checkBalance_resume cfg reply w =
     (case getBalance_return (watchAddress cfg) reply w of
        (Inl error, w1) \<Rightarrow> (case checkBalance_catch error w1 of (r, w2) \<Rightarrow> (Done r, w2))
      | (Inr currentBalance, w1) \<Rightarrow>
          if currentBalance > lastBalance w1 then
            (let receivedAmount = currentBalance - lastBalance w1;
                 w2 = emit (IncomingDetected receivedAmount currentBalance) w1;
                 w3 = w2\<lparr>lastBalance := currentBalance\<rparr>
             in case forwardTRX_call cfg currentBalance w3 of
                  (Done r, w4) \<Rightarrow> (case checkBalance_after_forward (r, w4) of (r', w5) \<Rightarrow> (Done r', w5))
                | (Await amountToSend, w4) \<Rightarrow> (Await amountToSend, w4))
          else if currentBalance < lastBalance w1 then
            (Done (Inr ()),
             (emit (BalanceDecreased (lastBalance w1) currentBalance) w1)\<lparr>lastBalance := currentBalance\<rparr>)
          else (Done (Inr ()), w1))"

text \<open>\<^verbatim>\<open>checkBalance\<close> resumed with the replies to the transfer that \<^verbatim>\<open>forwardTRX\<close> awaits.\<close>

definition checkBalance_finish ::
  "config \<Rightarrow> real \<Rightarrow> tronweb_replies \<Rightarrow> forwarder \<Rightarrow> (jserror + unit) \<times> forwarder" where
  "checkBalance_finish cfg amountToSend tw w =
     (case sendTrx_return (destinationAddress cfg) amountToSend tw w of
        (reply, w1) \<Rightarrow> checkBalance_after_forward (forwardTRX_return cfg amountToSend reply w1))"

text \<open>
  \<^verbatim>\<open>checkBalance()\<close> run to completion, nothing else running in between: \<open>balance_reply\<close>
  is the node's reply to the balance request and \<open>tw\<close> its replies to the transfer, each
  read only where the code gets that far.
\<close>

definition checkBalance ::
  "config \<Rightarrow> jserror + int \<Rightarrow> tronweb_replies \<Rightarrow> forwarder \<Rightarrow> (jserror + unit) \<times> forwarder" where
  "checkBalance cfg balance_reply tw w =
     (case checkBalance_call cfg w of
        (Done r, w1) \<Rightarrow> (r, w1)
      | (Await u, w1) \<Rightarrow>
          (case checkBalance_resume cfg balance_reply w1 of
             (Done r, w2) \<Rightarrow> (r, w2)
           | (Await amountToSend, w2) \<Rightarrow> checkBalance_finish cfg amountToSend tw w2))"

subsection \<open>The deferred resync\<close>

text \<open>The callback given to \<^verbatim>\<open>setTimeout\<close> by \<^verbatim>\<open>forwardTRX\<close>, fired and then resumed.\<close>

definition resync_call :: "config \<Rightarrow> forwarder \<Rightarrow> forwarder" where
  "resync_call cfg w = getBalance_call (watchAddress cfg) (w\<lparr>timeouts := timeouts w - 1\<rparr>)"

definition resync_return :: "config \<Rightarrow> jserror + int \<Rightarrow> forwarder \<Rightarrow> forwarder" where
  "resync_return cfg reply w =
     (case getBalance_return (watchAddress cfg) reply w of
        (Inl error, w1) \<Rightarrow> emit (ResyncFailed error) w1
      | (Inr newBalance, w1) \<Rightarrow> emit (RemainingBalance newBalance) (w1\<lparr>lastBalance := newBalance\<rparr>))"

subsection \<open>start, stop, displayStats\<close>

text \<open>\<^verbatim>\<open>setInterval\<close> returns a handle different from every armed one.\<close>

definition setInterval :: "forwarder \<Rightarrow> nat \<times> forwarder" where
  "setInterval w =
     (let h = Suc (foldr max (intervals w) 0) in (h, w\<lparr>intervals := h # intervals w\<rparr>))"

definition clearInterval :: "nat \<Rightarrow> forwarder \<Rightarrow> forwarder" where
  "clearInterval h w = w\<lparr>intervals := removeAll h (intervals w)\<rparr>"

text \<open>
  \<^verbatim>\<open>Math.floor\<close> of a quotient is \<open>div\<close> on integers; \<^verbatim>\<open>%\<close> takes the sign of the
  dividend, which is \<open>smod\<close>.
\<close>

definition displayStats :: "forwarder \<Rightarrow> forwarder" where
  "displayStats w =
     (let runTime = (clock w - startTime (stats w)) div 1000;
          hours = runTime div 3600;
          minutes = (runTime smod 3600) div 60;
          seconds = runTime smod 60
      in emit (StatsDisplayed hours minutes seconds
                 (transfersCount (stats w)) (totalAmount (stats w))) w)"

definition stop :: "forwarder \<Rightarrow> (jserror + unit) \<times> forwarder" where
  "stop w =
     (case checkIntervalId w of
        Some h \<Rightarrow>
          (Inr (), displayStats (emit MonitoringStopped ((clearInterval h w)\<lparr>checkIntervalId := None\<rparr>)))
      | None \<Rightarrow> (Inr (), w))"

text \<open>\<open>n\<close> calls of \<^verbatim>\<open>stop()\<close> in a row; a call that throws ends the sequence.\<close>

fun stop_times :: "nat \<Rightarrow> forwarder \<Rightarrow> (jserror + unit) \<times> forwarder" where
  "stop_times 0 w = (Inr (), w)"
| "stop_times (Suc n) w =
     (case stop w of (Inl error, w1) \<Rightarrow> (Inl error, w1) | (Inr u, w1) \<Rightarrow> stop_times n w1)"

text \<open>The \<^verbatim>\<open>catch\<close> block of \<^verbatim>\<open>start\<close>: log and rethrow.\<close>

definition start_catch :: "jserror \<Rightarrow> forwarder \<Rightarrow> (jserror + unit) \<times> forwarder" where
  "start_catch error w = (Inl error, emit (StartFailed error) w)"

text \<open>
  \<^verbatim>\<open>start()\<close> run to completion: \<open>sourceAddress\<close> is what \<^verbatim>\<open>getAddress()\<close> returns,
  \<open>initial_reply\<close> the node's reply to the first balance request, \<open>balance_reply\<close> and
  \<open>tw\<close> its replies during the immediate first check.
\<close>

definition start ::
  "config \<Rightarrow> string \<Rightarrow> jserror + int \<Rightarrow> jserror + int \<Rightarrow> tronweb_replies \<Rightarrow> forwarder
     \<Rightarrow> (jserror + unit) \<times> forwarder" where
  "start cfg sourceAddress initial_reply balance_reply tw w =
     (case getBalance (watchAddress cfg) initial_reply (emit (Starting sourceAddress) w) of
        (Inl error, w1) \<Rightarrow> start_catch error w1
      | (Inr initialBalance, w1) \<Rightarrow>
          (let w2 = emit (MonitoringStarted (checkInterval cfg))
                      (emit (InitialBalance initialBalance) (w1\<lparr>lastBalance := initialBalance\<rparr>))
           in case setInterval w2 of
                (h, w3) \<Rightarrow>
                  (case checkBalance cfg balance_reply tw (w3\<lparr>checkIntervalId := Some h\<rparr>) of
                     (Inl error, w4) \<Rightarrow> start_catch error w4
                   | (Inr u, w4) \<Rightarrow> (Inr (), w4))))"

section \<open>The event loop\<close>

text \<open>
  Between two pieces of one \<^verbatim>\<open>async\<close> call the runtime may run any other callback that
  is ready. A suspended call is a task; an action of the runtime either fires a timer or
  resumes task \<open>i\<close> with the reply it waits for. An action that is not possible in the
  current state gives \<open>None\<close>.
\<close>

datatype task = CheckAwaitsBalance | CheckAwaitsSend real | ResyncAwaitsBalance | Finished

datatype action =
    IntervalFires
  | TimeoutFires
  | BalanceReply nat "jserror + int"
  | SendReply nat tronweb_replies
  | StopCalled
  | ClockAdvances nat

fun step :: "config \<Rightarrow> action \<Rightarrow> forwarder \<times> task list \<Rightarrow> (forwarder \<times> task list) option" where
  "step cfg IntervalFires (w, ts) =
     (if intervals w = [] then None
      else (case checkBalance_call cfg w of
              (Done r, w1) \<Rightarrow> Some (w1, ts)
            | (Await u, w1) \<Rightarrow> Some (w1, ts @ [CheckAwaitsBalance])))"
| "step cfg TimeoutFires (w, ts) =
     (if timeouts w = 0 then None else Some (resync_call cfg w, ts @ [ResyncAwaitsBalance]))"
| "step cfg (BalanceReply i reply) (w, ts) =
     (if i < length ts then
        (case ts ! i of
           CheckAwaitsBalance \<Rightarrow>
             (case checkBalance_resume cfg reply w of
                (Done r, w1) \<Rightarrow> Some (w1, ts[i := Finished])
              | (Await amountToSend, w1) \<Rightarrow> Some (w1, ts[i := CheckAwaitsSend amountToSend]))
         | ResyncAwaitsBalance \<Rightarrow> Some (resync_return cfg reply w, ts[i := Finished])
         | _ \<Rightarrow> None)
      else None)"
| "step cfg (SendReply i tw) (w, ts) =
     (if i < length ts then
        (case ts ! i of
           CheckAwaitsSend amountToSend \<Rightarrow>
             Some (snd (checkBalance_finish cfg amountToSend tw w), ts[i := Finished])
         | _ \<Rightarrow> None)
      else None)"
| "step cfg StopCalled (w, ts) = Some (snd (stop w), ts)"
| "step cfg (ClockAdvances ms) (w, ts) = Some (w\<lparr>clock := clock w + int ms\<rparr>, ts)"

fun run :: "config \<Rightarrow> action list \<Rightarrow> forwarder \<times> task list \<Rightarrow> (forwarder \<times> task list) option" where
  "run cfg [] l = Some l"
| "run cfg (a # as) l = (case step cfg a l of None \<Rightarrow> None | Some l' \<Rightarrow> run cfg as l')"

text \<open>The forward attempts in flight: the tasks suspended inside \<^verbatim>\<open>forwardTRX\<close>.\<close>

fun in_flight :: "task list \<Rightarrow> nat" where
  "in_flight [] = 0"
| "in_flight (CheckAwaitsSend a # ts) = Suc (in_flight ts)"
| "in_flight (t # ts) = in_flight ts"

text \<open>
  The tasks of a check that has not returned yet, and among them those suspended inside
  \<^verbatim>\<open>forwardTRX\<close>. A state is single-flight when at most one check is pending and the
  guard is set exactly when a forward is in flight.
\<close>

fun awaits_send :: "task \<Rightarrow> bool" where
  "awaits_send (CheckAwaitsSend a) = True"
| "awaits_send t = False"

fun check_pending :: "task \<Rightarrow> bool" where
  "check_pending CheckAwaitsBalance = True"
| "check_pending (CheckAwaitsSend a) = True"
| "check_pending t = False"

definition single_flight :: "forwarder \<times> task list \<Rightarrow> bool" where
  "single_flight l =
     (case l of (w, ts) \<Rightarrow>
        length (filter check_pending ts) \<le> 1 \<and> (isProcessing w \<longleftrightarrow> in_flight ts = 1))"

text \<open>
  A run in which no tick of the interval timer comes while a check is waiting for the
  reply to its balance request; \<open>None\<close> also where a tick does.
\<close>

fun serial_run :: "config \<Rightarrow> action list \<Rightarrow> forwarder \<times> task list \<Rightarrow> (forwarder \<times> task list) option" where
  "serial_run cfg [] l = Some l"
| "serial_run cfg (a # as) l =
     (if a = IntervalFires \<and> CheckAwaitsBalance \<in> set (snd l) then None
      else (case step cfg a l of None \<Rightarrow> None | Some l' \<Rightarrow> serial_run cfg as l'))"

section \<open>Loading the configuration (config.js)\<close>

text \<open>
  The environment as \<^verbatim>\<open>loadConfig\<close> reads it: the three numeric variables are given
  as what \<^verbatim>\<open>parseFloat\<close> and \<^verbatim>\<open>parseInt\<close> make of them, \<open>None\<close> standing for NaN.
\<close>

record environment =
  PRIVATE_KEY :: "string option"
  WATCH_ADDRESS :: "string option"
  DESTINATION_ADDRESS :: "string option"
  MIN_AMOUNT :: "real option"
  RESERVE_AMOUNT :: "real option"
  CHECK_INTERVAL :: "int option"
  TRON_API_KEY :: "string option"

datatype config_error =
    PrivateKeyMissing | PrivateKeyMalformed
  | WatchAddressMissing | WatchAddressMalformed
  | DestinationAddressMissing | DestinationAddressMalformed
  | MinAmountNotPositive | ReserveAmountNegative | MinAmountNotAboveReserve
  | CheckIntervalTooShort

text \<open>\<^verbatim>\<open>x || d\<close> on numbers: NaN and 0 are falsy.\<close>

definition num_or :: "'a::zero option \<Rightarrow> 'a \<Rightarrow> 'a" where
  "num_or x d = (case x of None \<Rightarrow> d | Some v \<Rightarrow> if v = 0 then d else v)"

text \<open>\<^verbatim>\<open>!s\<close> on an optional string.\<close>

definition falsy :: "string option \<Rightarrow> bool" where
  "falsy s = (case s of None \<Rightarrow> True | Some v \<Rightarrow> v = [])"

definition isValidTronAddress :: "string option \<Rightarrow> bool" where
  "isValidTronAddress address =
     (if falsy address then False
      else (case address of None \<Rightarrow> False | Some a \<Rightarrow> prefix ''T'' a \<and> length a = 34))"

definition isValidPrivateKey :: "string option \<Rightarrow> bool" where
  "isValidPrivateKey key =
     (if falsy key then False
      else (case key of None \<Rightarrow> False
            | Some k \<Rightarrow> length k = 64 \<and> list_all (\<lambda>c. c \<in> set ''0123456789abcdefABCDEF'') k))"

text \<open>
  \<^verbatim>\<open>loadConfig()\<close>: \<open>Inl\<close> the list of errors where the process exits with status 1. The
  numeric fields are never NaN after \<^verbatim>\<open>|| default\<close>, so the \<^verbatim>\<open>isNaN\<close> tests of the
  source are false and only the comparisons remain.
\<close>

definition loadConfig :: "environment \<Rightarrow> config_error list + config" where
  "loadConfig env =
     (let config = \<lparr>privateKey = PRIVATE_KEY env,
                    watchAddress = WATCH_ADDRESS env,
                    destinationAddress = DESTINATION_ADDRESS env,
                    minAmount = num_or (MIN_AMOUNT env) (3 / 2),
                    reserveAmount = num_or (RESERVE_AMOUNT env) 1,
                    checkInterval = num_or (CHECK_INTERVAL env) 3000,
                    tronApiKey = js_or (TRON_API_KEY env) None\<rparr>;
          errors =
            (if falsy (privateKey config) then [PrivateKeyMissing]
             else if \<not> isValidPrivateKey (privateKey config) then [PrivateKeyMalformed] else []) @
            (if falsy (watchAddress config) then [WatchAddressMissing]
             else if \<not> isValidTronAddress (watchAddress config) then [WatchAddressMalformed] else []) @
            (if falsy (destinationAddress config) then [DestinationAddressMissing]
             else if \<not> isValidTronAddress (destinationAddress config)
                  then [DestinationAddressMalformed] else []) @
            (if minAmount config \<le> 0 then [MinAmountNotPositive] else []) @
            (if reserveAmount config < 0 then [ReserveAmountNegative] else []) @
            (if minAmount config \<le> reserveAmount config then [MinAmountNotAboveReserve] else []) @
            (if checkInterval config < 1000 then [CheckIntervalTooShort] else [])
      in if length errors > 0 then Inl errors else Inr config)"

section \<open>Example inputs\<close>

text \<open>A configuration that \<^verbatim>\<open>loadConfig\<close> accepts, and the environment it comes from.\<close>

definition example_config :: config where
  "example_config =
     \<lparr>privateKey = Some ''0123456789abcdef0123456789abcdef0123456789abcdef0123456789ABCDEF'',
      watchAddress = Some ''TWatchWatchWatchWatchWatchWatch123'',
      destinationAddress = Some ''TDestDestDestDestDestDestDestDe123'',
      minAmount = 3 / 2, reserveAmount = 1, checkInterval = 3000, tronApiKey = None\<rparr>"

definition example_environment :: environment where
  "example_environment =
     \<lparr>PRIVATE_KEY = Some ''0123456789abcdef0123456789abcdef0123456789abcdef0123456789ABCDEF'',
      WATCH_ADDRESS = Some ''TWatchWatchWatchWatchWatchWatch123'',
      DESTINATION_ADDRESS = Some ''TDestDestDestDestDestDestDestDe123'',
      MIN_AMOUNT = Some (3 / 2), RESERVE_AMOUNT = Some 1, CHECK_INTERVAL = Some 3000,
      TRON_API_KEY = None\<rparr>"

text \<open>A transfer that the node accepts, and one that it rejects for want of balance.\<close>

definition accepted_replies :: tronweb_replies where
  "accepted_replies =
     \<lparr>build_reply = Inr (Transaction (Some ''ab12'')),
      sign_reply = Inr (Transaction (Some ''ab12'')),
      broadcast_reply =
        Inr (Broadcast True (Some ''ab12'') (Some (Transaction (Some ''ab12''))) None)\<rparr>"

definition rejected_replies :: tronweb_replies where
  "rejected_replies =
     \<lparr>build_reply = Inr (Transaction (Some ''cd34'')),
      sign_reply = Inr (Transaction (Some ''cd34'')),
      broadcast_reply = Inr (Broadcast False None None (Some ''balance is not sufficient.''))\<rparr>"

text \<open>A forwarder constructed at time 0 and started on a balance of 10 TRX.\<close>

definition running_forwarder :: forwarder where
  "running_forwarder =
     snd (start example_config ''TSourceSourceSourceSourceSource123'' (Inr 10000000) (Inr 10000000)
            accepted_replies (new_forwarder 0))"

text \<open>
  The running forwarder after a check that read 12 TRX and whose transfer the node rejected.
\<close>

definition after_failed_forward :: forwarder where
  "after_failed_forward =
     snd (checkBalance example_config (Inr 12000000) rejected_replies running_forwarder)"

text \<open>
  Two ticks of the interval timer before the node has answered the first balance request;
  then the two answers, 12 TRX to the first request and 13 TRX to the second.
\<close>

definition overlapping_ticks :: "action list" where
  "overlapping_ticks =
     [IntervalFires, IntervalFires, BalanceReply 0 (Inr 12000000), BalanceReply 1 (Inr 13000000)]"

section \<open>Properties\<close>

subsection \<open>Auxiliary facts\<close>

lemma submissions_emit: "submissions (emit e w) = submissions w @ submission e"
  by (simp add: submissions_def emit_def)

lemma submissions_sendTrx_return:
  "submissions (snd (sendTrx_return to' amt tw w)) = submissions w"
  by (simp add: sendTrx_return_def sendTrx_catch_def Let_def submissions_emit split: sum.splits)

lemma submissions_forwardTRX_return:
  "submissions (snd (forwardTRX_return cfg amt reply w)) = submissions w"
  by (simp add: forwardTRX_return_def forwardTRX_finally_def setTimeout_resync_def Let_def
      submissions_def emit_def split: sum.splits)

lemma forwardTRX_call_submits:
  assumes "minAmount cfg \<le> b" and "0 < b - reserveAmount cfg"
  shows "\<exists>w1. forwardTRX_call cfg b w = (Await (b - reserveAmount cfg), w1)
           \<and> submissions w1 = submissions w @ [(destinationAddress cfg, b - reserveAmount cfg)]"
  using assms
  by (simp add: forwardTRX_call_def forwardTRX_begin_def sendTrx_call_def Let_def
      submissions_def emit_def)

lemma lastBalance_sendTrx_return:
  "lastBalance (snd (sendTrx_return to' amt tw w)) = lastBalance w"
  by (simp add: sendTrx_return_def sendTrx_catch_def Let_def emit_def split: sum.splits)

lemma lastBalance_forwardTRX_return:
  "lastBalance (snd (forwardTRX_return cfg amt reply w)) = lastBalance w"
  by (simp add: forwardTRX_return_def forwardTRX_finally_def setTimeout_resync_def Let_def
      emit_def split: sum.splits)

lemma lastBalance_forwardTRX_call:
  "lastBalance (snd (forwardTRX_call cfg b w)) = lastBalance w"
  by (simp add: forwardTRX_call_def forwardTRX_begin_def forwardTRX_finally_def sendTrx_call_def
      Let_def emit_def)

lemma lastBalance_after_forward:
  "checkBalance_after_forward (r, w) = (r', w') \<Longrightarrow> lastBalance w' = lastBalance w"
  by (auto simp add: checkBalance_after_forward_def checkBalance_catch_def emit_def
      split: sum.splits)

lemma lastBalance_checkBalance_finish:
  "lastBalance (snd (checkBalance_finish cfg amt tw w)) = lastBalance w"
proof -
  obtain reply w1 where r: "sendTrx_return (destinationAddress cfg) amt tw w = (reply, w1)"
    by (cases "sendTrx_return (destinationAddress cfg) amt tw w")
  obtain r2 w2 where f: "forwardTRX_return cfg amt reply w1 = (r2, w2)"
    by (cases "forwardTRX_return cfg amt reply w1")
  obtain r3 w3 where a: "checkBalance_after_forward (r2, w2) = (r3, w3)"
    by (cases "checkBalance_after_forward (r2, w2)")
  have "lastBalance w1 = lastBalance w"
    using lastBalance_sendTrx_return [of "destinationAddress cfg" amt tw w] r by simp
  moreover have "lastBalance w2 = lastBalance w1"
    using lastBalance_forwardTRX_return [of cfg amt reply w1] f by simp
  moreover have "lastBalance w3 = lastBalance w2"
    using a by (rule lastBalance_after_forward)
  ultimately show ?thesis
    by (simp add: checkBalance_finish_def r f a)
qed

lemma lastBalance_checkBalance_resume:
  "lastBalance (snd (checkBalance_resume cfg (Inr sun) w)) = fromSun sun"
proof -
  let ?w3 = "(emit (IncomingDetected (fromSun sun - lastBalance w) (fromSun sun)) w)
               \<lparr>lastBalance := fromSun sun\<rparr>"
  have "lastBalance (snd (forwardTRX_call cfg (fromSun sun) ?w3)) = fromSun sun"
    by (simp add: lastBalance_forwardTRX_call)
  then show ?thesis
    by (auto simp add: checkBalance_resume_def getBalance_return_def Let_def emit_def
        dest: lastBalance_after_forward split: prod.splits suspension.splits)
qed

lemma running_forwarder_eq:
  "running_forwarder =
     \<lparr>lastBalance = 10, isProcessing = False, checkIntervalId = Some 1,
      stats = \<lparr>transfersCount = 0, totalAmount = 0, startTime = 0\<rparr>,
      intervals = [1], timeouts = 0, clock = 0,
      trace = [Starting ''TSourceSourceSourceSourceSource123'',
               GetBalanceCall (Some ''TWatchWatchWatchWatchWatchWatch123''),
               InitialBalance 10, MonitoringStarted 3000,
               GetBalanceCall (Some ''TWatchWatchWatchWatchWatchWatch123'')]\<rparr>"
  by (simp add: running_forwarder_def start_def getBalance_def getBalance_call_def
      getBalance_return_def emit_def new_forwarder_def example_config_def fromSun_def
      setInterval_def checkBalance_def checkBalance_call_def checkBalance_resume_def Let_def)

lemma fst_sendTrx_return_indep:
  "fst (sendTrx_return to' amt tw w) = fst (sendTrx_return to' amt tw w')"
  by (simp add: sendTrx_return_def sendTrx_catch_def Let_def split: sum.splits)

lemma fst_sendTrx: "fst (sendTrx to' amt tw w) = fst (sendTrx_return to' amt tw w')"
  unfolding sendTrx_def by (rule fst_sendTrx_return_indep)

lemma sendTrx_return_Inr:
  assumes "fst (sendTrx_return to' amt tw w) = Inr res"
  shows "success res \<and> amount res = amt \<and> toAddress res = to'
       \<and> (\<exists>t s b. build_reply tw = Inr t \<and> sign_reply tw = Inr s \<and> broadcast_reply tw = Inr b
              \<and> result b
              \<and> txid res = js_or (raw_txid b)
                             (case raw_transaction b of None \<Rightarrow> None | Some t' \<Rightarrow> txID t'))"
  using assms
  by (auto simp add: sendTrx_return_def sendTrx_catch_def Let_def split: sum.splits if_splits)

lemma sendTrx_return_Inl:
  assumes "fst (sendTrx_return to' amt tw w) = Inl e"
  shows "\<not> (\<exists>t s b. build_reply tw = Inr t \<and> sign_reply tw = Inr s \<and> broadcast_reply tw = Inr b
              \<and> result b)"
   and "snd (sendTrx_return to' amt tw w) = emit (SendTrxFailed to' e) w"
  using assms
  by (auto simp add: sendTrx_return_def sendTrx_catch_def Let_def split: sum.splits if_splits)

lemma js_or_defined:
  "(\<exists>i. a = Some i \<and> i \<noteq> []) \<or> (\<exists>i. b = Some i \<and> i \<noteq> []) \<Longrightarrow> \<exists>i. js_or a b = Some i \<and> i \<noteq> []"
  by (auto simp add: js_or_def split: option.splits list.splits)

lemma forwardTRX_past_checks:
  assumes "minAmount cfg \<le> b" and "0 < b - reserveAmount cfg"
  shows "forwardTRX cfg b tw w
           = (case sendTrx_return (destinationAddress cfg) (b - reserveAmount cfg) tw
                    (sendTrx_call (destinationAddress cfg) (b - reserveAmount cfg)
                       (emit (ForwardPrepared b (reserveAmount cfg) (b - reserveAmount cfg)
                                (destinationAddress cfg)) (forwardTRX_begin w))) of
                (reply, w2) \<Rightarrow> forwardTRX_return cfg (b - reserveAmount cfg) reply w2)"
  using assms by (simp add: forwardTRX_def forwardTRX_call_def Let_def)

lemma forwardTRX_send_failed:
  assumes "minAmount cfg \<le> b" and "0 < b - reserveAmount cfg"
    and "fst (sendTrx_return (destinationAddress cfg) (b - reserveAmount cfg) tw w0) = Inl e"
  shows "snd (forwardTRX cfg b tw w)
           = w\<lparr>isProcessing := False,
               trace := trace w @
                 [ForwardPrepared b (reserveAmount cfg) (b - reserveAmount cfg) (destinationAddress cfg),
                  SendTrxCall (destinationAddress cfg) (b - reserveAmount cfg),
                  BuildTransaction (destinationAddress cfg) (toSun (b - reserveAmount cfg)),
                  SendTrxFailed (destinationAddress cfg) e,
                  ForwardFailed e] @
                 (if (case message e of None \<Rightarrow> False
                      | Some m \<Rightarrow> str_includes m ''balance is not sufficient'')
                  then [FeeHint] else [])\<rparr>"
proof -
  let ?w1 = "sendTrx_call (destinationAddress cfg) (b - reserveAmount cfg)
               (emit (ForwardPrepared b (reserveAmount cfg) (b - reserveAmount cfg)
                        (destinationAddress cfg)) (forwardTRX_begin w))"
  have f: "fst (sendTrx_return (destinationAddress cfg) (b - reserveAmount cfg) tw ?w1) = Inl e"
    using assms(3) fst_sendTrx_return_indep by metis
  then have s: "sendTrx_return (destinationAddress cfg) (b - reserveAmount cfg) tw ?w1
                  = (Inl e, emit (SendTrxFailed (destinationAddress cfg) e) ?w1)"
    using sendTrx_return_Inl(2) [OF f] by (simp add: prod_eq_iff)
  show ?thesis
    unfolding forwardTRX_past_checks [OF assms(1,2)] s
    by (simp add: forwardTRX_return_def forwardTRX_finally_def forwardTRX_begin_def
        sendTrx_call_def emit_def Let_def)
qed

lemma forwardTRX_send_ok:
  assumes "minAmount cfg \<le> b" and "0 < b - reserveAmount cfg"
    and "fst (sendTrx_return (destinationAddress cfg) (b - reserveAmount cfg) tw w0) = Inr res"
  shows "stats (snd (forwardTRX cfg b tw w))
           = (stats w)\<lparr>transfersCount := transfersCount (stats w) + 1,
                       totalAmount := totalAmount (stats w) + (b - reserveAmount cfg)\<rparr>"
proof -
  let ?w1 = "sendTrx_call (destinationAddress cfg) (b - reserveAmount cfg)
               (emit (ForwardPrepared b (reserveAmount cfg) (b - reserveAmount cfg)
                        (destinationAddress cfg)) (forwardTRX_begin w))"
  have f: "fst (sendTrx_return (destinationAddress cfg) (b - reserveAmount cfg) tw ?w1) = Inr res"
    using assms(3) fst_sendTrx_return_indep by metis
  have ok: "success res" using sendTrx_return_Inr [OF f] by simp
  obtain w2 where s: "sendTrx_return (destinationAddress cfg) (b - reserveAmount cfg) tw ?w1
                  = (Inr res, w2)"
    using f by (cases "sendTrx_return (destinationAddress cfg) (b - reserveAmount cfg) tw ?w1") simp
  have "stats w2 = stats ?w1"
    using s by (auto simp add: sendTrx_return_def sendTrx_catch_def Let_def emit_def
        split: sum.splits if_splits)
  then have "stats w2 = stats w"
    by (simp add: sendTrx_call_def emit_def forwardTRX_begin_def)
  then show ?thesis
    unfolding forwardTRX_past_checks [OF assms(1,2)] s
    by (simp add: forwardTRX_return_def ok forwardTRX_finally_def setTimeout_resync_def emit_def)
qed

lemma checkBalance_increase:
  assumes "\<not> isProcessing w" and "lastBalance w < fromSun sun"
  shows "checkBalance cfg (Inr sun) tw w
           = checkBalance_after_forward
               (forwardTRX cfg (fromSun sun) tw
                  ((emit (IncomingDetected (fromSun sun - lastBalance w) (fromSun sun))
                      (getBalance_call (watchAddress cfg) w))\<lparr>lastBalance := fromSun sun\<rparr>))"
proof -
  let ?w3 = "(emit (IncomingDetected (fromSun sun - lastBalance w) (fromSun sun))
                (getBalance_call (watchAddress cfg) w))\<lparr>lastBalance := fromSun sun\<rparr>"
  have c: "checkBalance_call cfg w = (Await (), getBalance_call (watchAddress cfg) w)"
    using assms(1) by (simp add: checkBalance_call_def)
  have l: "lastBalance (getBalance_call (watchAddress cfg) w) = lastBalance w"
    by (simp add: getBalance_call_def emit_def)
  have r: "checkBalance_resume cfg (Inr sun) (getBalance_call (watchAddress cfg) w)
             = (case forwardTRX_call cfg (fromSun sun) ?w3 of
                  (Done r, w4) \<Rightarrow>
                    (case checkBalance_after_forward (r, w4) of (r', w5) \<Rightarrow> (Done r', w5))
                | (Await amountToSend, w4) \<Rightarrow> (Await amountToSend, w4))"
    using assms(2) by (simp add: checkBalance_resume_def getBalance_return_def l Let_def)
  show ?thesis
  proof (cases "forwardTRX_call cfg (fromSun sun) ?w3")
    case (Pair s w4)
    show ?thesis
    proof (cases s)
      case (Done r')
      with Pair show ?thesis
        by (simp add: checkBalance_def c r forwardTRX_def split: prod.splits)
    next
      case (Await a)
      with Pair show ?thesis
        by (simp add: checkBalance_def c r forwardTRX_def checkBalance_finish_def
            split: prod.splits)
    qed
  qed
qed

lemma checkBalance_unchanged:
  assumes "\<not> isProcessing w" and "lastBalance w = fromSun sun"
  shows "checkBalance cfg (Inr sun) tw w = (Inr (), emit (GetBalanceCall (watchAddress cfg)) w)"
  using assms
  by (simp add: checkBalance_def checkBalance_call_def checkBalance_resume_def
      getBalance_return_def getBalance_call_def emit_def)

lemma fst_forwardTRX: "fst (forwardTRX cfg b tw w) = Inr ()"
  by (simp add: forwardTRX_def forwardTRX_call_def forwardTRX_return_def Let_def
      split: prod.splits)

lemma lastBalance_forwardTRX:
  "lastBalance (snd (forwardTRX cfg b tw w)) = lastBalance w"
proof (cases "forwardTRX_call cfg b w")
  case (Pair s w1)
  have l: "lastBalance w1 = lastBalance w"
    using lastBalance_forwardTRX_call [of cfg b w] Pair by simp
  show ?thesis
  proof (cases s)
    case (Done r)
    with Pair l show ?thesis by (simp add: forwardTRX_def)
  next
    case (Await a)
    obtain reply w2 where r: "sendTrx_return (destinationAddress cfg) a tw w1 = (reply, w2)"
      by (cases "sendTrx_return (destinationAddress cfg) a tw w1")
    have "lastBalance w2 = lastBalance w1"
      using lastBalance_sendTrx_return [of "destinationAddress cfg" a tw w1] r by simp
    with Pair Await l r show ?thesis
      by (simp add: forwardTRX_def lastBalance_forwardTRX_return)
  qed
qed

lemma after_failed_forward_eq:
  "after_failed_forward =
     \<lparr>lastBalance = 12, isProcessing = False, checkIntervalId = Some 1,
      stats = \<lparr>transfersCount = 0, totalAmount = 0, startTime = 0\<rparr>,
      intervals = [1], timeouts = 0, clock = 0,
      trace = [Starting ''TSourceSourceSourceSourceSource123'',
               GetBalanceCall (Some ''TWatchWatchWatchWatchWatchWatch123''),
               InitialBalance 10, MonitoringStarted 3000,
               GetBalanceCall (Some ''TWatchWatchWatchWatchWatchWatch123''),
               GetBalanceCall (Some ''TWatchWatchWatchWatchWatchWatch123''),
               IncomingDetected 2 12,
               ForwardPrepared 12 1 11 (Some ''TDestDestDestDestDestDestDestDe123''),
               SendTrxCall (Some ''TDestDestDestDestDestDestDestDe123'') 11,
               BuildTransaction (Some ''TDestDestDestDestDestDestDestDe123'') 11000000,
               SendTrxFailed (Some ''TDestDestDestDestDestDestDestDe123'')
                 (JsError (Some ''balance is not sufficient.'')),
               ForwardFailed (JsError (Some ''balance is not sufficient.'')),
               FeeHint]\<rparr>"
  by (simp add: after_failed_forward_def running_forwarder_eq checkBalance_def
      checkBalance_call_def checkBalance_resume_def checkBalance_finish_def
      checkBalance_after_forward_def getBalance_call_def getBalance_return_def
      forwardTRX_call_def forwardTRX_begin_def forwardTRX_return_def forwardTRX_finally_def
      sendTrx_call_def sendTrx_return_def sendTrx_catch_def rejected_replies_def
      example_config_def emit_def fromSun_def toSun_def js_or_def Let_def)

lemma stop_stopped: "checkIntervalId w = None \<Longrightarrow> stop w = (Inr (), w)"
  by (simp add: stop_def)

lemma stop_times_stopped: "checkIntervalId w = None \<Longrightarrow> stop_times n w = (Inr (), w)"
  by (induction n) (simp_all add: stop_stopped)

lemma checkIntervalId_stop: "checkIntervalId (snd (stop w)) = None"
  by (simp add: stop_def displayStats_def emit_def clearInterval_def Let_def split: option.splits)

lemma loadConfig_amounts:
  assumes "loadConfig env = Inr cfg"
  shows "0 \<le> reserveAmount cfg \<and> reserveAmount cfg < minAmount cfg"
proof -
  let ?c = "\<lparr>privateKey = PRIVATE_KEY env,
            watchAddress = WATCH_ADDRESS env,
            destinationAddress = DESTINATION_ADDRESS env,
            minAmount = num_or (MIN_AMOUNT env) (3 / 2),
            reserveAmount = num_or (RESERVE_AMOUNT env) 1,
            checkInterval = num_or (CHECK_INTERVAL env) 3000,
            tronApiKey = js_or (TRON_API_KEY env) None\<rparr>"
  from assms have "cfg = ?c \<and> \<not> reserveAmount ?c < 0 \<and> \<not> minAmount ?c \<le> reserveAmount ?c"
    unfolding loadConfig_def Let_def
    by (auto split: if_splits)
  then show ?thesis by auto
qed

subsection \<open>The forward attempt\<close>

text \<open>
  Claim C1. For every balance \<open>b\<close> passed to the forward attempt with \<open>b \<ge> minAmount\<close> and
  \<open>b - reserveAmount > 0\<close>, exactly one transfer is submitted: the attempt adds one entry to
  the transfers handed to the chain client, with recipient \<open>destinationAddress\<close> and amount
  \<open>b - reserveAmount\<close>, whatever the node replies.
\<close>

theorem forwardTRX_submits_once:
  assumes "minAmount cfg \<le> b" and "0 < b - reserveAmount cfg"
  shows "submissions (snd (forwardTRX cfg b tw w))
           = submissions w @ [(destinationAddress cfg, b - reserveAmount cfg)]"
proof -
  from forwardTRX_call_submits [OF assms] obtain w1 where
    c: "forwardTRX_call cfg b w = (Await (b - reserveAmount cfg), w1)" and
    s: "submissions w1 = submissions w @ [(destinationAddress cfg, b - reserveAmount cfg)]"
    by blast
  obtain reply w2 where
    r: "sendTrx_return (destinationAddress cfg) (b - reserveAmount cfg) tw w1 = (reply, w2)"
    by (cases "sendTrx_return (destinationAddress cfg) (b - reserveAmount cfg) tw w1")
  have "submissions w2 = submissions w1"
    using submissions_sendTrx_return [of "destinationAddress cfg" "b - reserveAmount cfg" tw w1] r
    by simp
  moreover have "snd (forwardTRX cfg b tw w)
                   = snd (forwardTRX_return cfg (b - reserveAmount cfg) reply w2)"
    by (simp add: forwardTRX_def c r)
  ultimately show ?thesis
    using s submissions_forwardTRX_return [of cfg "b - reserveAmount cfg" reply w2] by simp
qed

text \<open>
  At a balance of 12 TRX with threshold 1.5 and reserve 1, the one transfer is of 11 TRX to
  the destination; the node accepting it, the session counts one transfer of 11 TRX in all.
\<close>

theorem forwardTRX_submits_once_witness:
  "minAmount example_config \<le> 12 \<and> 0 < 12 - reserveAmount example_config
   \<and> submissions (snd (forwardTRX example_config 12 accepted_replies running_forwarder))
       = [(Some ''TDestDestDestDestDestDestDestDe123'', 11)]
   \<and> stats (snd (forwardTRX example_config 12 accepted_replies running_forwarder))
       = \<lparr>transfersCount = 1, totalAmount = 11, startTime = 0\<rparr>"
proof -
  have h1: "minAmount example_config \<le> 12" and h2: "0 < 12 - reserveAmount example_config"
    by (simp_all add: example_config_def)
  have "submissions running_forwarder = []"
    by (simp add: running_forwarder_eq submissions_def)
  moreover have "stats (snd (forwardTRX example_config 12 accepted_replies running_forwarder))
       = \<lparr>transfersCount = 1, totalAmount = 11, startTime = 0\<rparr>"
    by (simp add: running_forwarder_eq forwardTRX_def forwardTRX_call_def forwardTRX_begin_def
        forwardTRX_return_def forwardTRX_finally_def setTimeout_resync_def sendTrx_call_def
        sendTrx_return_def accepted_replies_def example_config_def emit_def js_or_def Let_def)
  ultimately show ?thesis
    using h1 h2 forwardTRX_submits_once [OF h1 h2, of accepted_replies running_forwarder]
    by (simp add: example_config_def)
qed

text \<open>
  Claim C3. For every balance \<open>b\<close> passed to the forward attempt with \<open>b < minAmount\<close>, no
  transfer is submitted, the outcome is classified as below the threshold (that warning is
  the one event of the attempt), and the session statistics are not changed: the attempt
  returns normally, leaving the forwarder as it was but for that event and the cleared guard.
\<close>

theorem forwardTRX_below_minAmount:
  assumes "b < minAmount cfg"
  shows "forwardTRX cfg b tw w
           = (Inr (), (emit (BelowMinAmount b (minAmount cfg)) w)\<lparr>isProcessing := False\<rparr>)
       \<and> submissions (snd (forwardTRX cfg b tw w)) = submissions w
       \<and> stats (snd (forwardTRX cfg b tw w)) = stats w"
  using assms
  by (simp add: forwardTRX_def forwardTRX_call_def forwardTRX_begin_def forwardTRX_finally_def
      emit_def submissions_def)

theorem forwardTRX_below_minAmount_witness:
  "(1 / 2 :: real) < minAmount example_config
   \<and> submissions (snd (forwardTRX example_config (1 / 2) accepted_replies (new_forwarder 0))) = []
   \<and> stats (snd (forwardTRX example_config (1 / 2) accepted_replies (new_forwarder 0)))
       = stats (new_forwarder 0)
   \<and> trace (snd (forwardTRX example_config (1 / 2) accepted_replies (new_forwarder 0)))
       = [BelowMinAmount (1 / 2) (3 / 2)]"
proof -
  have h: "(1 / 2 :: real) < minAmount example_config"
    by (simp add: example_config_def)
  show ?thesis
    using h forwardTRX_below_minAmount [OF h, of accepted_replies "new_forwarder 0"]
    by (simp add: new_forwarder_def submissions_def emit_def example_config_def)
qed

text \<open>
  Claim C4. The guard flag \<open>isProcessing\<close> is set on entry to every forward attempt and is
  false again when the attempt returns, on every exit path. The first statement of the
  attempt sets it; an attempt that ends without a transfer (below the threshold, or
  nothing left after the reserve) returns normally with the flag false; an attempt that
  submits a transfer holds the flag while it waits, and whatever comes back, a result or a
  thrown error, it returns normally with the flag false.
\<close>

theorem forwardTRX_guard:
  "isProcessing (forwardTRX_begin w)
   \<and> (case forwardTRX_call cfg b w of
        (Done r, w1) \<Rightarrow> r = Inr () \<and> \<not> isProcessing w1
      | (Await a, w1) \<Rightarrow> isProcessing w1)
   \<and> fst (forwardTRX_return cfg a reply w') = Inr ()
   \<and> \<not> isProcessing (snd (forwardTRX_return cfg a reply w'))
   \<and> fst (forwardTRX cfg b tw w) = Inr ()
   \<and> \<not> isProcessing (snd (forwardTRX cfg b tw w))"
  by (simp add: forwardTRX_def forwardTRX_call_def forwardTRX_begin_def forwardTRX_return_def
      forwardTRX_finally_def sendTrx_call_def emit_def Let_def split: prod.splits)

text \<open>
  Claim C9. \<^verbatim>\<open>loadConfig\<close> returns a configuration only with
  \<open>0 \<le> reserveAmount < minAmount\<close>; and under that condition the branch of the forward
  attempt for a reserve that exceeds the balance cannot be taken: for every balance \<open>b\<close>
  that passes the threshold check, \<open>b \<ge> minAmount\<close>, the amount \<open>b - reserveAmount\<close> is
  strictly positive and the attempt goes on to submit it.
\<close>

theorem reserve_branch_unreachable:
  "(loadConfig env = Inr cfg \<longrightarrow> 0 \<le> reserveAmount cfg \<and> reserveAmount cfg < minAmount cfg)
   \<and> (0 \<le> reserveAmount cfg' \<and> reserveAmount cfg' < minAmount cfg' \<and> minAmount cfg' \<le> b \<longrightarrow>
        0 < b - reserveAmount cfg'
        \<and> fst (forwardTRX_call cfg' b w) = Await (b - reserveAmount cfg'))"
  using loadConfig_amounts [of env cfg]
  by (auto simp add: forwardTRX_call_def Let_def)

theorem reserve_branch_unreachable_witness:
  "loadConfig example_environment = Inr example_config
   \<and> 0 \<le> reserveAmount example_config \<and> reserveAmount example_config < minAmount example_config
   \<and> minAmount example_config \<le> 3 / 2
   \<and> fst (forwardTRX_call example_config (3 / 2) running_forwarder) = Await (1 / 2)"
proof -
  have l: "loadConfig example_environment = Inr example_config"
    by (simp add: loadConfig_def example_environment_def example_config_def num_or_def js_or_def
        falsy_def isValidPrivateKey_def isValidTronAddress_def Let_def)
  show ?thesis
    using l reserve_branch_unreachable
      [of example_environment example_config example_config "3 / 2" running_forwarder]
    by (simp add: example_config_def)
qed

subsection \<open>Submitting a transfer\<close>

text \<open>
  Claim C10. \<^verbatim>\<open>sendTrx\<close> returns normally only with a result whose \<open>success\<close> flag is
  true, and then the three calls to the node have succeeded, the broadcast was accepted,
  and the result carries as \<open>txid\<close> the transaction id of the accepted reply (its
  \<^verbatim>\<open>txid\<close>, else the \<^verbatim>\<open>txID\<close> of its transaction: a non-empty id whenever the reply
  has one in either place). Every failure, a rejected broadcast or an error thrown at any
  of the three steps, is a thrown error. Hence the forward attempt that gets as far as
  submitting either counts the transfer in the statistics or takes its \<^verbatim>\<open>catch\<close> block:
  the case of a returned result that is no success never occurs, and after a failed
  submission the forwarder differs from before only by the log lines and the cleared guard.
\<close>

theorem sendTrx_returns_success_or_throws:
  "(case fst (sendTrx to' amt tw w) of
      Inr res \<Rightarrow>
        success res \<and> amount res = amt \<and> toAddress res = to'
        \<and> (\<exists>t s b. build_reply tw = Inr t \<and> sign_reply tw = Inr s \<and> broadcast_reply tw = Inr b
               \<and> result b
               \<and> txid res = js_or (raw_txid b)
                              (case raw_transaction b of None \<Rightarrow> None | Some t' \<Rightarrow> txID t')
               \<and> ((\<exists>i. raw_txid b = Some i \<and> i \<noteq> [])
                    \<or> (\<exists>i. raw_transaction b = Some (Transaction (Some i)) \<and> i \<noteq> [])
                  \<longrightarrow> (\<exists>i. txid res = Some i \<and> i \<noteq> [])))
    | Inl e \<Rightarrow>
        \<not> (\<exists>t s b. build_reply tw = Inr t \<and> sign_reply tw = Inr s \<and> broadcast_reply tw = Inr b
               \<and> result b))
   \<and> (minAmount cfg \<le> bal \<and> 0 < bal - reserveAmount cfg \<longrightarrow>
        (case fst (sendTrx (destinationAddress cfg) (bal - reserveAmount cfg) tw w') of
           Inr res \<Rightarrow>
             stats (snd (forwardTRX cfg bal tw w'))
               = (stats w')\<lparr>transfersCount := transfersCount (stats w') + 1,
                            totalAmount := totalAmount (stats w') + (bal - reserveAmount cfg)\<rparr>
         | Inl e \<Rightarrow>
             snd (forwardTRX cfg bal tw w')
               = w'\<lparr>isProcessing := False,
                    trace := trace w' @
                      [ForwardPrepared bal (reserveAmount cfg) (bal - reserveAmount cfg)
                         (destinationAddress cfg),
                       SendTrxCall (destinationAddress cfg) (bal - reserveAmount cfg),
                       BuildTransaction (destinationAddress cfg) (toSun (bal - reserveAmount cfg)),
                       SendTrxFailed (destinationAddress cfg) e,
                       ForwardFailed e] @
                      (if (case message e of None \<Rightarrow> False
                           | Some m \<Rightarrow> str_includes m ''balance is not sufficient'')
                       then [FeeHint] else [])\<rparr>))"
proof (intro conjI impI)
  show "case fst (sendTrx to' amt tw w) of
      Inr res \<Rightarrow>
        success res \<and> amount res = amt \<and> toAddress res = to'
        \<and> (\<exists>t s b. build_reply tw = Inr t \<and> sign_reply tw = Inr s \<and> broadcast_reply tw = Inr b
               \<and> result b
               \<and> txid res = js_or (raw_txid b)
                              (case raw_transaction b of None \<Rightarrow> None | Some t' \<Rightarrow> txID t')
               \<and> ((\<exists>i. raw_txid b = Some i \<and> i \<noteq> [])
                    \<or> (\<exists>i. raw_transaction b = Some (Transaction (Some i)) \<and> i \<noteq> [])
                  \<longrightarrow> (\<exists>i. txid res = Some i \<and> i \<noteq> [])))
    | Inl e \<Rightarrow>
        \<not> (\<exists>t s b. build_reply tw = Inr t \<and> sign_reply tw = Inr s \<and> broadcast_reply tw = Inr b
               \<and> result b)"
  proof (cases "fst (sendTrx to' amt tw w)")
    case (Inl e)
    then have "fst (sendTrx_return to' amt tw w) = Inl e" using fst_sendTrx by metis
    from sendTrx_return_Inl(1) [OF this] Inl show ?thesis by simp
  next
    case (Inr res)
    then have "fst (sendTrx_return to' amt tw w) = Inr res" using fst_sendTrx by metis
    from sendTrx_return_Inr [OF this] obtain t s b where
      a: "success res" "amount res = amt" "toAddress res = to'" and
      b: "build_reply tw = Inr t" "sign_reply tw = Inr s" "broadcast_reply tw = Inr b" "result b" and
      i: "txid res = js_or (raw_txid b)
                           (case raw_transaction b of None \<Rightarrow> None | Some t' \<Rightarrow> txID t')"
      by blast
    have "(\<exists>i. raw_txid b = Some i \<and> i \<noteq> [])
            \<or> (\<exists>i. raw_transaction b = Some (Transaction (Some i)) \<and> i \<noteq> [])
          \<longrightarrow> (\<exists>i. txid res = Some i \<and> i \<noteq> [])"
      unfolding i by (auto intro!: js_or_defined)
    with a b i Inr show ?thesis by auto
  qed
next
  assume h: "minAmount cfg \<le> bal \<and> 0 < bal - reserveAmount cfg"
  then have h1: "minAmount cfg \<le> bal" and h2: "0 < bal - reserveAmount cfg" by simp_all
  show "case fst (sendTrx (destinationAddress cfg) (bal - reserveAmount cfg) tw w') of
           Inr res \<Rightarrow>
             stats (snd (forwardTRX cfg bal tw w'))
               = (stats w')\<lparr>transfersCount := transfersCount (stats w') + 1,
                            totalAmount := totalAmount (stats w') + (bal - reserveAmount cfg)\<rparr>
         | Inl e \<Rightarrow>
             snd (forwardTRX cfg bal tw w')
               = w'\<lparr>isProcessing := False,
                    trace := trace w' @
                      [ForwardPrepared bal (reserveAmount cfg) (bal - reserveAmount cfg)
                         (destinationAddress cfg),
                       SendTrxCall (destinationAddress cfg) (bal - reserveAmount cfg),
                       BuildTransaction (destinationAddress cfg) (toSun (bal - reserveAmount cfg)),
                       SendTrxFailed (destinationAddress cfg) e,
                       ForwardFailed e] @
                      (if (case message e of None \<Rightarrow> False
                           | Some m \<Rightarrow> str_includes m ''balance is not sufficient'')
                       then [FeeHint] else [])\<rparr>"
  proof (cases "fst (sendTrx (destinationAddress cfg) (bal - reserveAmount cfg) tw w')")
    case (Inl e)
    then have "fst (sendTrx_return (destinationAddress cfg) (bal - reserveAmount cfg) tw w') = Inl e"
      using fst_sendTrx by metis
    from forwardTRX_send_failed [OF h1 h2 this, of w'] Inl show ?thesis by simp
  next
    case (Inr res)
    then have "fst (sendTrx_return (destinationAddress cfg) (bal - reserveAmount cfg) tw w') = Inr res"
      using fst_sendTrx by metis
    from forwardTRX_send_ok [OF h1 h2 this, of w'] Inr show ?thesis by simp
  qed
qed


theorem sendTrx_returns_success_or_throws_witness:
  "minAmount example_config \<le> 12 \<and> 0 < 12 - reserveAmount example_config
   \<and> fst (sendTrx (destinationAddress example_config) 11 accepted_replies running_forwarder)
       = Inr \<lparr>success = True, txid = Some ''ab12'', amount = 11,
              toAddress = Some ''TDestDestDestDestDestDestDestDe123''\<rparr>
   \<and> stats (snd (forwardTRX example_config 12 accepted_replies running_forwarder))
       = \<lparr>transfersCount = 1, totalAmount = 11, startTime = 0\<rparr>"
proof -
  have h: "minAmount example_config \<le> 12 \<and> 0 < 12 - reserveAmount example_config"
    by (simp add: example_config_def)
  have r: "fst (sendTrx (destinationAddress example_config) 11 accepted_replies running_forwarder)
       = Inr \<lparr>success = True, txid = Some ''ab12'', amount = 11,
              toAddress = Some ''TDestDestDestDestDestDestDestDe123''\<rparr>"
    by (simp add: sendTrx_def sendTrx_return_def accepted_replies_def example_config_def
        js_or_def Let_def)
  have "12 - reserveAmount example_config = 11"
    by (simp add: example_config_def)
  with h r show ?thesis
    using sendTrx_returns_success_or_throws
      [where to' = "destinationAddress example_config" and amt = 11 and tw = accepted_replies
         and w = running_forwarder and cfg = example_config and bal = 12
         and w' = running_forwarder]
    by (simp add: running_forwarder_eq)
qed

subsection \<open>The balance check\<close>

text \<open>
  Claim C6. After a balance check during which no forward was in flight at its start and
  the balance read succeeds, \<open>lastBalance\<close> is the balance observed, whether it is above,
  below or equal to the previous one, and whatever the outcome of the forward attempt that
  an increase starts.
\<close>

theorem checkBalance_lastBalance:
  assumes "\<not> isProcessing w"
  shows "lastBalance (snd (checkBalance cfg (Inr sun) tw w)) = fromSun sun"
proof -
  let ?w1 = "getBalance_call (watchAddress cfg) w"
  have c: "checkBalance_call cfg w = (Await (), ?w1)"
    using assms by (simp add: checkBalance_call_def)
  have l: "lastBalance (snd (checkBalance_resume cfg (Inr sun) ?w1)) = fromSun sun"
    by (rule lastBalance_checkBalance_resume)
  show ?thesis
  proof (cases "checkBalance_resume cfg (Inr sun) ?w1")
    case (Pair s w2)
    show ?thesis
    proof (cases s)
      case (Done r)
      with Pair l c show ?thesis by (simp add: checkBalance_def)
    next
      case (Await a)
      with Pair l c show ?thesis
        by (simp add: checkBalance_def lastBalance_checkBalance_finish)
    qed
  qed
qed

theorem checkBalance_lastBalance_witness:
  "\<not> isProcessing running_forwarder
   \<and> lastBalance running_forwarder = 10
   \<and> lastBalance (snd (checkBalance example_config (Inr 12000000) rejected_replies running_forwarder)) = 12
   \<and> lastBalance (snd (checkBalance example_config (Inr 4000000) rejected_replies running_forwarder)) = 4
   \<and> lastBalance (snd (checkBalance example_config (Inr 10000000) rejected_replies running_forwarder)) = 10"
proof -
  have h: "\<not> isProcessing running_forwarder"
    by (simp add: running_forwarder_eq)
  show ?thesis
    using h
      checkBalance_lastBalance [OF h, of example_config 12000000 rejected_replies]
      checkBalance_lastBalance [OF h, of example_config 4000000 rejected_replies]
      checkBalance_lastBalance [OF h, of example_config 10000000 rejected_replies]
    by (simp add: fromSun_def running_forwarder_eq)
qed

text \<open>
  The same holds in the event loop at the moment the check has dealt with the reply,
  whatever else is pending.
\<close>

lemma step_BalanceReply_lastBalance:
  assumes "i < length ts" and "ts ! i = CheckAwaitsBalance"
  shows "\<exists>w' ts'. step cfg (BalanceReply i (Inr sun)) (w, ts) = Some (w', ts')
           \<and> lastBalance w' = fromSun sun"
proof (cases "checkBalance_resume cfg (Inr sun) w")
  case (Pair s w1)
  have "lastBalance w1 = fromSun sun"
    using lastBalance_checkBalance_resume [of cfg sun w] Pair by simp
  with Pair assms show ?thesis by (cases s) simp_all
qed

text \<open>
  Claim C7. A failure of the initial balance read in \<^verbatim>\<open>start\<close> is thrown on to the
  caller of \<^verbatim>\<open>start\<close>, after being logged; nothing else has happened by then, no timer is
  armed. A failure of the balance read in a check is caught in \<^verbatim>\<open>checkBalance\<close>: the
  error is logged, the check returns normally, and no field of the forwarder changes, so
  \<open>lastBalance\<close> is as before and the interval timer stays armed for the next tick.
\<close>

theorem read_failure_fatal_in_start_transient_in_checkBalance:
  "start cfg sourceAddress (Inl e) balance_reply tw w
     = (Inl e, w\<lparr>trace := trace w @ [Starting sourceAddress, GetBalanceCall (watchAddress cfg),
                                     GetBalanceFailed (watchAddress cfg) e, StartFailed e]\<rparr>)
   \<and> (\<not> isProcessing w' \<longrightarrow>
        checkBalance cfg (Inl e) tw w'
          = (Inr (), w'\<lparr>trace := trace w' @ [GetBalanceCall (watchAddress cfg),
                                            GetBalanceFailed (watchAddress cfg) e, CheckFailed e]\<rparr>))"
  by (simp add: start_def start_catch_def getBalance_def getBalance_call_def getBalance_return_def
      checkBalance_def checkBalance_call_def checkBalance_resume_def checkBalance_catch_def emit_def)

theorem read_failure_witness:
  "\<not> isProcessing running_forwarder
   \<and> fst (start example_config ''TSourceSourceSourceSourceSource123''
            (Inl (JsError (Some ''timeout''))) (Inr 10000000) accepted_replies (new_forwarder 0))
       = Inl (JsError (Some ''timeout''))
   \<and> intervals (snd (start example_config ''TSourceSourceSourceSourceSource123''
            (Inl (JsError (Some ''timeout''))) (Inr 10000000) accepted_replies (new_forwarder 0)))
       = []
   \<and> fst (checkBalance example_config (Inl (JsError (Some ''timeout''))) accepted_replies
            running_forwarder) = Inr ()
   \<and> lastBalance (snd (checkBalance example_config (Inl (JsError (Some ''timeout'')))
                         accepted_replies running_forwarder)) = 10
   \<and> intervals (snd (checkBalance example_config (Inl (JsError (Some ''timeout'')))
                       accepted_replies running_forwarder)) = [1]"
proof -
  have h: "\<not> isProcessing running_forwarder"
    by (simp add: running_forwarder_eq)
  show ?thesis
    using h read_failure_fatal_in_start_transient_in_checkBalance
      [of example_config "''TSourceSourceSourceSourceSource123''" "JsError (Some ''timeout'')"
          "Inr 10000000" accepted_replies "new_forwarder 0" running_forwarder]
    by (simp add: running_forwarder_eq new_forwarder_def)
qed

subsection \<open>After a failed submission\<close>

text \<open>
  Claim C2 says that after a submission that throws, the next tick with the same external
  balance sees that balance as new and attempts the forward again. It does not: the check
  stores the balance it read before it starts the attempt, so the next read of the same
  balance is no increase. Here the node rejects the transfer of 11 TRX started at a balance
  of 12 TRX; the next check reads 12 TRX again, and all it does is that read.
\<close>

theorem next_tick_after_failed_forward_counterexample:
  "submissions after_failed_forward = [(Some ''TDestDestDestDestDestDestDestDe123'', 11)]
   \<and> ForwardFailed (JsError (Some ''balance is not sufficient.'')) \<in> set (trace after_failed_forward)
   \<and> checkBalance example_config (Inr 12000000) accepted_replies after_failed_forward
       = (Inr (), emit (GetBalanceCall (Some ''TWatchWatchWatchWatchWatchWatch123'')) after_failed_forward)
   \<and> submissions (snd (checkBalance example_config (Inr 12000000) accepted_replies after_failed_forward))
       = [(Some ''TDestDestDestDestDestDestDestDe123'', 11)]"
  by (simp add: after_failed_forward_eq submissions_def checkBalance_def checkBalance_call_def
      checkBalance_resume_def getBalance_call_def getBalance_return_def example_config_def
      emit_def fromSun_def)

text \<open>
  Claim C2, amended. If the transfer submission throws during a check that saw an
  increase, the session statistics are not changed, and the forward attempt (any forward
  attempt) leaves \<open>lastBalance\<close> as it found it, which is at the balance just read, where
  the check had put it before starting the attempt. The guard is clear again; and on the
  next tick with the same external balance the check finds the balance unchanged: it reads
  the balance and does nothing else, so the forward is not attempted again.
\<close>

theorem failed_submission_not_retried:
  assumes "\<not> isProcessing w" and "lastBalance w < fromSun sun"
    and "minAmount cfg \<le> fromSun sun" and "0 < fromSun sun - reserveAmount cfg"
    and "fst (sendTrx (destinationAddress cfg) (fromSun sun - reserveAmount cfg) tw w) = Inl e"
  shows "stats (snd (checkBalance cfg (Inr sun) tw w)) = stats w
       \<and> lastBalance (snd (forwardTRX cfg b tw' w')) = lastBalance w'
       \<and> lastBalance (snd (checkBalance cfg (Inr sun) tw w)) = fromSun sun
       \<and> \<not> isProcessing (snd (checkBalance cfg (Inr sun) tw w))
       \<and> checkBalance cfg (Inr sun) tw2 (snd (checkBalance cfg (Inr sun) tw w))
           = (Inr (), emit (GetBalanceCall (watchAddress cfg)) (snd (checkBalance cfg (Inr sun) tw w)))"
proof -
  let ?w3 = "(emit (IncomingDetected (fromSun sun - lastBalance w) (fromSun sun))
                (getBalance_call (watchAddress cfg) w))\<lparr>lastBalance := fromSun sun\<rparr>"
  let ?w' = "snd (checkBalance cfg (Inr sun) tw w)"
  have f: "fst (sendTrx_return (destinationAddress cfg) (fromSun sun - reserveAmount cfg) tw w) = Inl e"
    using assms(5) fst_sendTrx by metis
  have fw: "forwardTRX cfg (fromSun sun) tw ?w3 = (Inr (), snd (forwardTRX cfg (fromSun sun) tw ?w3))"
    by (simp add: prod_eq_iff fst_forwardTRX)
  have w': "?w' = snd (forwardTRX cfg (fromSun sun) tw ?w3)"
    unfolding checkBalance_increase [OF assms(1,2)]
    by (subst fw) (simp add: checkBalance_after_forward_def)
  note s = forwardTRX_send_failed [OF assms(3,4) f, of ?w3]
  have a: "stats ?w' = stats w"
    unfolding w' s by (simp add: emit_def getBalance_call_def)
  have b: "lastBalance ?w' = fromSun sun"
    unfolding w' s by (simp add: emit_def getBalance_call_def)
  have c: "\<not> isProcessing ?w'"
    unfolding w' s by simp
  have d: "checkBalance cfg (Inr sun) tw2 ?w' = (Inr (), emit (GetBalanceCall (watchAddress cfg)) ?w')"
    using c b by (rule checkBalance_unchanged)
  show ?thesis
    using a b c d lastBalance_forwardTRX [of cfg b tw' w'] by simp
qed

theorem failed_submission_not_retried_witness:
  "\<not> isProcessing running_forwarder \<and> lastBalance running_forwarder < fromSun 12000000
   \<and> minAmount example_config \<le> fromSun 12000000
   \<and> 0 < fromSun 12000000 - reserveAmount example_config
   \<and> fst (sendTrx (destinationAddress example_config) (fromSun 12000000 - reserveAmount example_config)
            rejected_replies running_forwarder) = Inl (JsError (Some ''balance is not sufficient.''))
   \<and> stats (snd (checkBalance example_config (Inr 12000000) rejected_replies running_forwarder))
       = stats running_forwarder
   \<and> lastBalance (snd (checkBalance example_config (Inr 12000000) rejected_replies running_forwarder)) = 12
   \<and> checkBalance example_config (Inr 12000000) accepted_replies
       (snd (checkBalance example_config (Inr 12000000) rejected_replies running_forwarder))
      = (Inr (), emit (GetBalanceCall (watchAddress example_config))
                   (snd (checkBalance example_config (Inr 12000000) rejected_replies running_forwarder)))"
proof -
  have h1: "\<not> isProcessing running_forwarder"
    and h2: "lastBalance running_forwarder < fromSun 12000000"
    and h3: "minAmount example_config \<le> fromSun 12000000"
    and h4: "0 < fromSun 12000000 - reserveAmount example_config"
    by (simp_all add: running_forwarder_eq example_config_def fromSun_def)
  have h5: "fst (sendTrx (destinationAddress example_config) (fromSun 12000000 - reserveAmount example_config)
            rejected_replies running_forwarder) = Inl (JsError (Some ''balance is not sufficient.''))"
    by (simp add: sendTrx_def sendTrx_return_def sendTrx_catch_def rejected_replies_def js_or_def)
  show ?thesis
    using h1 h2 h3 h4 h5
      failed_submission_not_retried [OF h1 h2 h3 h4 h5, of 0 accepted_replies running_forwarder accepted_replies]
    by (simp add: fromSun_def)
qed

subsection \<open>Overlapping ticks\<close>

text \<open>
  A check that finds the guard set does nothing but report that it is skipped: no balance
  is requested, and no field of the forwarder changes.
\<close>

lemma checkBalance_skipped:
  assumes "isProcessing w"
  shows "checkBalance cfg balance_reply tw w = (Inr (), emit CheckSkipped w)"
  using assms by (simp add: checkBalance_def checkBalance_call_def)

text \<open>
  Claim C5. At most one forward attempt is in flight at any instant, for any timing of the
  ticks. The guard is tested at the entry of the check and set only after the balance has
  been read, so the claim fails for two ticks that both start before the first balance
  reply: from a running forwarder that last saw 10 TRX, with replies of 12 and 13 TRX, both
  checks pass the guard, both see an increase, and two transfers (of 11 and of 12 TRX) are
  awaiting the node at the same time.
\<close>

theorem overlapping_ticks_two_in_flight:
  "map_option snd (run example_config overlapping_ticks (running_forwarder, []))
     = Some [CheckAwaitsSend 11, CheckAwaitsSend 12]
   \<and> map_option (in_flight \<circ> snd) (run example_config overlapping_ticks (running_forwarder, []))
     = Some 2
   \<and> map_option (submissions \<circ> fst) (run example_config overlapping_ticks (running_forwarder, []))
     = Some [(destinationAddress example_config, 11), (destinationAddress example_config, 12)]"
  by (simp add: running_forwarder_eq overlapping_ticks_def
      checkBalance_call_def checkBalance_resume_def getBalance_call_def getBalance_return_def
      forwardTRX_call_def forwardTRX_begin_def sendTrx_call_def emit_def example_config_def
      fromSun_def toSun_def Let_def submissions_def)

text \<open>
  The guard does its work as long as ticks do not overlap a pending balance read: every
  step of such a run keeps the state single-flight, so at most one forward is in flight
  after any such run from a single-flight state, and the running forwarder is in one.
\<close>

lemma in_flight_filter: "in_flight ts = length (filter awaits_send ts)"
  by (induction ts rule: in_flight.induct) simp_all

lemma filter_update_length:
  assumes "i < length ts"
  shows "length (filter P (ts[i := t])) + (if P (ts ! i) then 1 else 0)
           = length (filter P ts) + (if P t then 1 else 0)"
  using assms
proof (induction ts arbitrary: i)
  case Nil
  then show ?case by simp
next
  case (Cons x xs)
  then show ?case by (cases i) auto
qed

lemma filter_update_drop:
  "i < length ts \<Longrightarrow> P (ts ! i) \<Longrightarrow> \<not> P t
     \<Longrightarrow> length (filter P ts) = Suc (length (filter P (ts[i := t])))"
  using filter_update_length [of i ts P t] by simp

lemma filter_update_same:
  "i < length ts \<Longrightarrow> P (ts ! i) = P t
     \<Longrightarrow> length (filter P (ts[i := t])) = length (filter P ts)"
  using filter_update_length [of i ts P t] by simp

lemma awaits_send_le_pending:
  "length (filter awaits_send ts) \<le> length (filter check_pending ts)"
proof (induction ts)
  case Nil
  then show ?case by simp
next
  case (Cons t ts)
  then show ?case by (cases t) simp_all
qed

lemma isProcessing_checkBalance_resume:
  "(case checkBalance_resume cfg reply w of
      (Done r, w1) \<Rightarrow> isProcessing w1 = isProcessing w \<or> \<not> isProcessing w1
    | (Await a, w1) \<Rightarrow> isProcessing w1)"
  by (simp add: checkBalance_resume_def getBalance_return_def checkBalance_catch_def
      checkBalance_after_forward_def forwardTRX_call_def forwardTRX_begin_def
      forwardTRX_finally_def sendTrx_call_def emit_def Let_def split: sum.splits prod.splits)

lemma isProcessing_checkBalance_finish:
  "\<not> isProcessing (snd (checkBalance_finish cfg a tw w))"
  by (simp add: checkBalance_finish_def checkBalance_after_forward_def forwardTRX_return_def
      forwardTRX_finally_def split: prod.splits sum.splits)

lemma isProcessing_resync_return: "isProcessing (resync_return cfg reply w) = isProcessing w"
  by (simp add: resync_return_def getBalance_return_def emit_def split: sum.splits)

lemma isProcessing_stop: "isProcessing (snd (stop w)) = isProcessing w"
  by (simp add: stop_def displayStats_def emit_def clearInterval_def Let_def split: option.splits)

lemma step_single_flight:
  assumes inv: "single_flight (w, ts)"
    and st: "step cfg a (w, ts) = Some (w', ts')"
    and ser: "a = IntervalFires \<longrightarrow> CheckAwaitsBalance \<notin> set ts"
  shows "single_flight (w', ts')"
proof -
  from inv have p1: "length (filter check_pending ts) \<le> 1"
    and pr: "isProcessing w \<longleftrightarrow> length (filter awaits_send ts) = 1"
    by (simp_all add: single_flight_def in_flight_filter)
  show ?thesis
  proof (cases a)
    case IntervalFires
    show ?thesis
    proof (cases "isProcessing w")
      case True
      with IntervalFires st inv show ?thesis
        by (auto simp add: single_flight_def checkBalance_call_def emit_def split: if_splits)
    next
      case False
      from ser IntervalFires have nb: "CheckAwaitsBalance \<notin> set ts" by simp
      have "filter check_pending ts = filter awaits_send ts"
      proof (rule filter_cong [OF refl])
        fix t assume "t \<in> set ts"
        with nb show "check_pending t = awaits_send t" by (cases t) auto
      qed
      then have "length (filter check_pending ts) = length (filter awaits_send ts)"
        by simp
      with p1 pr False have z: "length (filter check_pending ts) = 0"
        and z': "length (filter awaits_send ts) = 0"
        by arith+
      from False IntervalFires st have
        e: "w' = getBalance_call (watchAddress cfg) w" "ts' = ts @ [CheckAwaitsBalance]"
        by (auto simp add: checkBalance_call_def split: if_splits)
      have "length (filter check_pending ts') = 1" "length (filter awaits_send ts') = 0"
        using z z' unfolding e by simp_all
      moreover have "\<not> isProcessing w'"
        using False unfolding e by (simp add: getBalance_call_def emit_def)
      ultimately show ?thesis
        by (simp add: single_flight_def in_flight_filter)
    qed
  next
    case TimeoutFires
    with st inv show ?thesis
      by (auto simp add: single_flight_def in_flight_filter resync_call_def getBalance_call_def
          emit_def split: if_splits)
  next
    case (BalanceReply i reply)
    with st have i: "i < length ts" by (auto split: if_splits)
    show ?thesis
    proof (cases "ts ! i")
      case CheckAwaitsBalance
      have d: "length (filter check_pending ts) = Suc (length (filter check_pending (ts[i := Finished])))"
        using i by (rule filter_update_drop) (simp_all add: CheckAwaitsBalance)
      have s: "length (filter awaits_send (ts[i := Finished])) = length (filter awaits_send ts)"
        using i by (rule filter_update_same) (simp add: CheckAwaitsBalance)
      from d p1 have p0: "length (filter check_pending (ts[i := Finished])) = 0" by arith
      with awaits_send_le_pending [of "ts[i := Finished]"] s
      have s0: "length (filter awaits_send ts) = 0" by arith
      with pr have np: "\<not> isProcessing w" by simp
      note r = isProcessing_checkBalance_resume [where cfg = cfg and reply = reply and w = w]
      show ?thesis
      proof (cases "checkBalance_resume cfg reply w")
        case (Pair sp w1)
        show ?thesis
        proof (cases sp)
          case (Done r')
          with Pair BalanceReply CheckAwaitsBalance st i
          have e: "w' = w1" "ts' = ts[i := Finished]" by auto
          from r Pair Done np have "\<not> isProcessing w1" by simp
          moreover have "length (filter awaits_send (ts[i := Finished])) = 0"
            using s s0 by simp
          ultimately show ?thesis
            using p0 unfolding e by (simp add: single_flight_def in_flight_filter)
        next
          case (Await amt)
          with Pair BalanceReply CheckAwaitsBalance st i
          have e: "w' = w1" "ts' = ts[i := CheckAwaitsSend amt]" by auto
          from r Pair Await have "isProcessing w1" by simp
          moreover have "length (filter check_pending (ts[i := CheckAwaitsSend amt]))
                           = length (filter check_pending ts)"
            using i by (rule filter_update_same) (simp add: CheckAwaitsBalance)
          moreover have "length (filter awaits_send (ts[i := CheckAwaitsSend amt])) + 0
                           = length (filter awaits_send ts) + 1"
            using filter_update_length [OF i, of awaits_send "CheckAwaitsSend amt"]
            by (simp add: CheckAwaitsBalance)
          ultimately show ?thesis
            using p1 s0 unfolding e by (simp add: single_flight_def in_flight_filter)
        qed
      qed
    next
      case (CheckAwaitsSend x2)
      with BalanceReply st i show ?thesis by simp
    next
      case ResyncAwaitsBalance
      have "length (filter check_pending (ts[i := Finished])) = length (filter check_pending ts)"
        using i by (rule filter_update_same) (simp add: ResyncAwaitsBalance)
      moreover have "length (filter awaits_send (ts[i := Finished])) = length (filter awaits_send ts)"
        using i by (rule filter_update_same) (simp add: ResyncAwaitsBalance)
      moreover from ResyncAwaitsBalance BalanceReply st i
      have "w' = resync_return cfg reply w" "ts' = ts[i := Finished]" by auto
      ultimately show ?thesis
        using p1 pr by (simp add: single_flight_def in_flight_filter isProcessing_resync_return)
    next
      case Finished
      with BalanceReply st i show ?thesis by simp
    qed
  next
    case (SendReply i tw)
    with st have i: "i < length ts" by (auto split: if_splits)
    from SendReply st i obtain amt where t: "ts ! i = CheckAwaitsSend amt"
      by (cases "ts ! i") auto
    with SendReply st i have e: "w' = snd (checkBalance_finish cfg amt tw w)" "ts' = ts[i := Finished]"
      by auto
    have "length (filter check_pending ts) = Suc (length (filter check_pending (ts[i := Finished])))"
      using i by (rule filter_update_drop) (simp_all add: t)
    with p1 have p0: "length (filter check_pending (ts[i := Finished])) = 0" by arith
    with awaits_send_le_pending [of "ts[i := Finished]"]
    have "length (filter awaits_send (ts[i := Finished])) = 0" by arith
    with p0 show ?thesis
      unfolding e by (simp add: single_flight_def in_flight_filter isProcessing_checkBalance_finish)
  next
    case StopCalled
    with st inv show ?thesis
      by (auto simp add: single_flight_def isProcessing_stop)
  next
    case (ClockAdvances ms)
    with st inv show ?thesis
      by (auto simp add: single_flight_def)
  qed
qed

lemma serial_run_single_flight:
  "single_flight l \<Longrightarrow> serial_run cfg as l = Some l' \<Longrightarrow> single_flight l'"
proof (induction as arbitrary: l)
  case Nil
  then show ?case by simp
next
  case (Cons a as)
  from Cons.prems(2) obtain l1 where
    s: "step cfg a l = Some l1" and r: "serial_run cfg as l1 = Some l'"
    and n: "a = IntervalFires \<longrightarrow> CheckAwaitsBalance \<notin> set (snd l)"
    by (auto split: if_splits option.splits)
  have "single_flight l1"
    using step_single_flight [where w = "fst l" and ts = "snd l" and cfg = cfg and a = a
        and w' = "fst l1" and ts' = "snd l1"] Cons.prems(1) s n
    by simp
  then show ?case using r by (rule Cons.IH)
qed

lemma serial_run_at_most_one_in_flight:
  assumes "single_flight l" and "serial_run cfg as l = Some (w', ts')"
  shows "in_flight ts' \<le> 1"
proof -
  have "single_flight (w', ts')" using assms by (rule serial_run_single_flight)
  then have "length (filter check_pending ts') \<le> 1" by (simp add: single_flight_def)
  with awaits_send_le_pending [of ts'] show ?thesis by (simp add: in_flight_filter)
qed

lemma single_flight_running: "single_flight (running_forwarder, [])"
  by (simp add: single_flight_def running_forwarder_eq)

subsection \<open>Stopping\<close>

text \<open>
  Claim C8. \<^verbatim>\<open>stop()\<close> is idempotent. On a forwarder whose timer is armed, the first
  call returns normally, disarms the timer, forgets its handle, and logs that monitoring
  has stopped followed by the statistics of the session; any number of further calls
  return normally and change nothing, so they log no statistics; and with the one timer
  of the forwarder disarmed, the interval can fire no more.
\<close>

theorem stop_idempotent:
  assumes "checkIntervalId w = Some h"
  shows "fst (stop w) = Inr ()
       \<and> h \<notin> set (intervals (snd (stop w)))
       \<and> checkIntervalId (snd (stop w)) = None
       \<and> (\<exists>hours minutes seconds.
            trace (snd (stop w))
              = trace w @ [MonitoringStopped,
                           StatsDisplayed hours minutes seconds
                             (transfersCount (stats w)) (totalAmount (stats w))])
       \<and> stop_times n (snd (stop w)) = (Inr (), snd (stop w))
       \<and> (intervals w = [h] \<longrightarrow> step cfg IntervalFires (snd (stop w), ts) = None)"
proof -
  have "stop_times n (snd (stop w)) = (Inr (), snd (stop w))"
    by (rule stop_times_stopped) (rule checkIntervalId_stop)
  then show ?thesis
    using assms
    by (simp add: stop_def displayStats_def emit_def clearInterval_def Let_def)
qed

theorem stop_idempotent_witness:
  "checkIntervalId running_forwarder = Some 1
   \<and> intervals running_forwarder = [1]
   \<and> intervals (snd (stop running_forwarder)) = []
   \<and> trace (snd (stop running_forwarder))
       = trace running_forwarder @ [MonitoringStopped, StatsDisplayed 0 0 0 0 0]
   \<and> stop_times 3 (snd (stop running_forwarder)) = (Inr (), snd (stop running_forwarder))
   \<and> step example_config IntervalFires (snd (stop running_forwarder), []) = None"
proof -
  have h: "checkIntervalId running_forwarder = Some 1"
    by (simp add: running_forwarder_eq)
  have i: "intervals (snd (stop running_forwarder)) = []"
    by (simp add: running_forwarder_eq stop_def displayStats_def emit_def clearInterval_def
        Let_def)
  have t: "trace (snd (stop running_forwarder))
             = trace running_forwarder @ [MonitoringStopped, StatsDisplayed 0 0 0 0 0]"
    by (simp add: running_forwarder_eq stop_def displayStats_def emit_def clearInterval_def
        Let_def signed_modulo_int_def)
  show ?thesis
    using h i t stop_idempotent [OF h, of 3 example_config "[]"]
    by (simp add: running_forwarder_eq)
qed

end
